theory Spec2Isabelle
  imports Complex_Main "HOL-Library.Word"
begin

section \<open>Data model of the widget package\<close>

text \<open>
  The package \<open>wid\<close> builds widgets on an immediate-mode framework. A widget is a
  function from a layout context to dimensions that appends drawing operations to the
  operation list of the context on its way. Here a widget returns the operations it
  appends together with its dimensions.

  Conventions of the embedding:
  \<^item> \<open>float64\<close> and \<open>float32\<close> values are real numbers (rounding is not modelled);
  \<open>time.Time\<close> is a real number of seconds and the zero time (\<open>IsZero\<close>) is \<open>None\<close>;
  \<^item> pixel counts (\<open>int\<close> in Go) are integers, far from the ends of the machine range;
  \<^item> a pointer that may be \<open>nil\<close> is an \<open>option\<close>.
\<close>

type_synonym byte = "8 word"

text \<open>\<open>image.Point\<close> and \<open>layout.Constraints\<close>.\<close>

record Point =
  X :: int
  Y :: int

record Constraints =
  Min_c :: Point
  Max_c :: Point

text \<open>\<open>layout.Dimensions\<close>; \<open>D{}\<close> is the zero value.\<close>

record Dimensions =
  Size :: Point
  Baseline :: int

definition D_zero :: Dimensions where
  "D_zero = \<lparr>Size = \<lparr>X = 0, Y = 0\<rparr>, Baseline = 0\<rparr>"

text \<open>\<open>unit.Value\<close>: a number with its unit.\<close>

datatype Unit = UnitPx | UnitDp | UnitSp

record Value =
  V :: real
  U :: Unit

text \<open>
  \<open>layout.Context\<close>, as far as the package reads it: the constraints, the time of the
  frame, the event queue (\<open>nil\<close> for a disabled context) and the conversion of a unit
  value to pixels by the metric of the context (the method \<open>gtx.Px\<close>, kept as a field
  since the metric belongs to the framework).
\<close>

record Context =
  Constraints :: Constraints
  Now :: real
  Queue :: "nat option"
  Px :: "Value \<Rightarrow> int"

text \<open>\<open>gtx.Disabled()\<close>: the same context with a \<open>nil\<close> queue.\<close>

definition Disabled_ctx :: "Context \<Rightarrow> Context" where
  "Disabled_ctx gtx = gtx\<lparr>Queue := None\<rparr>"

text \<open>
  Colours. \<open>MulAlpha\<close>, \<open>Hovered\<close> and \<open>Disabled\<close> are colour helpers of the package
  whose bodies are not part of the sources at hand; they are kept as constructors, so
  that an operation records which helper was applied to which colour.
\<close>

datatype NRGBA = NRGBA byte byte byte byte

datatype Colour =
    Plain NRGBA
  | ThBackground
  | ThPrimary
  | ThOnPrimary
  | ThOnBackground
  | Hovered Colour
  | Disabled Colour
  | MulAlpha Colour "byte option"

text \<open>The operations the modelled functions append to \<open>gtx.Ops\<close>.\<close>

datatype Op =
    InvalidateOp
  | SaveOp
  | LoadOp
  | ColorOp Colour
  | OffsetOp real real
  | UniformRRectOp real real real
  | RectOp int int
  | PaintOp
  | FillRRectOp Colour real real real
  | BorderOp Colour real real real real
  | ShadowOp real Value

type_synonym Widget = "Context \<Rightarrow> Op list \<times> Dimensions"

text \<open>
  A press of the pointer, as \<open>drawInk\<close> reads it: \<open>End\<close> is the zero time while the
  press is open.
\<close>

record Press =
  Position :: "real \<times> real"
  Start :: real
  End :: "real option"
  Cancelled :: bool

section \<open>The ink animation: \<open>drawInk\<close>\<close>

text \<open>
  The conversion \<open>byte(x)\<close> of a \<open>float64\<close>: the fraction is discarded (towards zero);
  when the result does not fit a byte, Go leaves the value to the implementation, which
  is \<open>None\<close> here.
\<close>

definition trunc :: "real \<Rightarrow> int" where
  "trunc x = (if 0 \<le> x then \<lfloor>x\<rfloor> else \<lceil>x\<rceil>)"

definition byte_of :: "real \<Rightarrow> byte option" where
  "byte_of x = (if 0 \<le> trunc x \<and> trunc x \<le> 255 then Some (word_of_int (trunc x)) else None)"

text \<open>
  Lines 119 to 127: the haste of a cancelled press.
\<close>

definition ink_haste :: "bool \<Rightarrow> real \<Rightarrow> real" where
  "ink_haste cancelled endt =
     (if cancelled then (let h = 0.5 - endt / 0.9 in if h > 0 then h else 0) else 0)"

text \<open>
  Lines 128 to 132: the fade-in position, \<open>math.Max(t/0.9+haste, 0.5)\<close> and then the cap
  at \<open>0.5\<close>.
\<close>

definition ink_half1 :: "real \<Rightarrow> real \<Rightarrow> real" where
  "ink_half1 t haste = (let half1 = max (t / 0.9 + haste) 0.5 in if half1 > 0.5 then 0.5 else half1)"

text \<open>
  Lines 144 and 162: the expand position \<open>sizet\<close> and the radius \<open>rr\<close> for a size and an
  elapsed time.
\<close>

definition ink_sizet :: "real \<Rightarrow> real" where
  "ink_sizet t = min (t * 2) 1.0"

definition ink_rr :: "real \<Rightarrow> real \<Rightarrow> real" where
  "ink_rr sz s = sz * sqrt 2.0 * s * s * (3.0 - 2.0 * s)"

text \<open>
  The values \<open>drawInk\<close> computes for one press before it emits operations. \<open>None\<close> is
  the early return of line 136.
\<close>

record Ink =
  half1 :: real
  half2 :: real
  alphat :: real
  sizet :: real
  invalidate :: bool
  alpha :: real
  ba :: "byte option"
  rr :: real

definition drawInk_values :: "Context \<Rightarrow> Press \<Rightarrow> Ink option" where
  "drawInk_values gtx c =
     (let now = Now gtx;
          t = now - Start c;
          end = (case End c of None \<Rightarrow> now | Some e \<Rightarrow> e);
          endt = end - Start c;
          haste = ink_haste (Cancelled c) endt;
          h1 = ink_half1 t haste;
          h2 = (now - end) / 0.9 + haste
      in if h2 > 0.5 then None
         else
           (let alphat0 = h1 + h2;
                t' = (if Cancelled c then endt else t);
                sz = ink_sizet t';
                inv = (End c \<noteq> None \<or> sz \<le> 1.0);
                alphat1 = (if alphat0 > 0.5 then 1.0 - alphat0 else alphat0);
                t2 = alphat1 * 2;
                size_px = max (real_of_int (Y (Min_c (Constraints gtx))))
                           (real_of_int (X (Min_c (Constraints gtx))));
                al = 0.7 * alphat1 * 2 * t2 * (3.0 - 3.0 * alphat1)
            in Some \<lparr>half1 = h1, half2 = h2, alphat = alphat1, sizet = sz,
                     invalidate = inv, alpha = al, ba = byte_of (al * 255),
                     rr = ink_rr size_px sz\<rparr>))"

text \<open>
  \<open>drawInk\<close> itself: nothing when the press is fully faded; otherwise the redraw
  request (line 147), the saved state, the ink colour, the offset, the clip and the
  paint operation, and the deferred \<open>Load\<close> at the end.
\<close>

definition drawInk :: "Context \<Rightarrow> Press \<Rightarrow> Op list" where
  "drawInk gtx c =
     (case drawInk_values gtx c of
        None \<Rightarrow> []
      | Some k \<Rightarrow>
          (if invalidate k then [InvalidateOp] else []) @
          [SaveOp,
           ColorOp (MulAlpha (Plain (NRGBA 0x80 0x80 0x80 0xff)) (ba k)),
           OffsetOp (fst (Position c) - rr k) (snd (Position c) - rr k),
           UniformRRectOp (2 * rr k) (2 * rr k) (rr k),
           PaintOp,
           LoadOp])"

text \<open>The opacity of a press at a frame: the multiplier \<open>alpha\<close>, or 0 when nothing is drawn.\<close>

definition ink_opacity :: "Context \<Rightarrow> Press \<Rightarrow> real" where
  "ink_opacity gtx c = (case drawInk_values gtx c of None \<Rightarrow> 0 | Some k \<Rightarrow> alpha k)"

section \<open>The separator\<close>

text \<open>\<open>layout.Inset\<close>: four unit values.\<close>

record Inset =
  Top :: Value
  Bottom :: Value
  Left :: Value
  Right :: Value

text \<open>
  \<open>SeparatorStyle\<close>, with the \<open>padding\<close> of the embedded \<open>Widget\<close>. \<open>Separator\<close>
  builds the style from its thickness and options and returns the layout function of
  lines 28 to 37; the style \<open>s\<close> below is the one the closure captures, after
  \<open>s.Apply(options)\<close>.
\<close>

record SeparatorStyle =
  thickness :: Value
  padding :: Inset

definition Separator :: "SeparatorStyle \<Rightarrow> Widget" where
  "Separator s gtx =
     (let dim0 = Max_c (Constraints gtx);
          dim = dim0\<lparr>Y := Px gtx (thickness s) + Px gtx (Top (padding s))
                            + Px gtx (Bottom (padding s))\<rparr>;
          sz = \<lparr>X = X dim - Px gtx (Left (padding s)) - Px gtx (Right (padding s)),
                Y = Px gtx (thickness s)\<rparr>
      in ([OffsetOp (real_of_int (Px gtx (Left (padding s))))
                    (real_of_int (Px gtx (Top (padding s)))),
           RectOp (X sz) (Y sz),
           ColorOp ThOnBackground,
           PaintOp],
          \<lparr>Size = dim, Baseline = 0\<rparr>))"

text \<open>Whether a size lies within constraints, componentwise.\<close>

definition within_constraints :: "Constraints \<Rightarrow> Point \<Rightarrow> bool" where
  "within_constraints cs p \<longleftrightarrow>
     X (Min_c cs) \<le> X p \<and> X p \<le> X (Max_c cs) \<and> Y (Min_c cs) \<le> Y p \<and> Y p \<le> Y (Max_c cs)"

section \<open>The button\<close>

datatype ButtonStyle = Contained | Text | Outlined | Round

text \<open>The fields of the theme that the background reads as numbers.\<close>

record Theme =
  CornerRadius :: Value
  Elevation :: Value
  BorderThickness :: Value

text \<open>
  \<open>ButtonDef\<close>, with the state of the embedded \<open>Clickable\<close> that the modelled
  functions read through \<open>b.History()\<close>, \<open>b.Hovered()\<close>, \<open>b.Focused()\<close> and
  \<open>b.disabled\<close>. The \<open>disabler\<close> is a pointer to a flag: \<open>None\<close> for \<open>nil\<close>, else
  the value it points to at the time of the pass.
\<close>

record ButtonDef =
  th :: Theme
  disabler :: "bool option"
  Width :: Value
  Style :: ButtonStyle
  disabled :: bool
  history :: "Press list"
  hovered :: bool
  focused :: bool

text \<open>
  The conversion \<open>Pxr(gtx, v)\<close> of the package (a fractional pixel count) is not part
  of the sources at hand; it is the parameter \<open>Pxr\<close> below.
\<close>

definition PaintBorder ::
  "(Context \<Rightarrow> Value \<Rightarrow> real) \<Rightarrow> Context \<Rightarrow> real \<times> real \<Rightarrow> Colour \<Rightarrow> Value \<Rightarrow> Value \<Rightarrow> Op list" where
  "PaintBorder Pxr gtx outline col width r =
     [BorderOp col (fst outline) (snd outline) (Pxr gtx r) (Pxr gtx width)]"

text \<open>
  \<open>LayoutBackground\<close>, lines 184 to 228: the corner radius, the shadow of a focused or
  hovered button, the clip, and the fill chosen by the \<open>switch\<close> (first matching case).
\<close>

definition LayoutBackground_fill ::
  "(Context \<Rightarrow> Value \<Rightarrow> real) \<Rightarrow> ButtonDef \<Rightarrow> Context \<Rightarrow> Op list" where
  "LayoutBackground_fill Pxr b gtx =
     (let r = (if Style b = Round then real_of_int (Y (Min_c (Constraints gtx))) / 2.0
               else Pxr gtx (CornerRadius (th b)));
          shadow = (if focused b \<or> hovered b then [ShadowOp r (Elevation (th b))] else []);
          w = real_of_int (X (Min_c (Constraints gtx)));
          h = real_of_int (Y (Min_c (Constraints gtx)));
          border = (\<lambda>col. PaintBorder Pxr gtx (w, h) col (BorderThickness (th b))
                                (CornerRadius (th b)))
      in shadow @ [UniformRRectOp w h r] @
         (if Style b = Text \<and> Queue gtx = None then [FillRRectOp ThBackground w h r]
          else if Style b = Text \<and> (hovered b \<or> focused b) then
            [FillRRectOp (Hovered ThBackground) w h r]
          else if Style b = Text then [FillRRectOp ThBackground w h r]
          else if Style b = Outlined \<and> Queue gtx = None then
            FillRRectOp ThBackground w h r # border (Disabled ThPrimary)
          else if Style b = Outlined \<and> (hovered b \<or> focused b) then
            FillRRectOp (Hovered ThBackground) w h r # border ThPrimary
          else if Style b = Outlined then FillRRectOp ThBackground w h r # border ThPrimary
          else if (Style b = Contained \<or> Style b = Round) \<and> Queue gtx = None then
            [FillRRectOp (Disabled ThPrimary) w h r]
          else if (Style b = Contained \<or> Style b = Round) \<and> (hovered b \<or> focused b) then
            [FillRRectOp (Hovered ThPrimary) w h r]
          else if Style b = Contained \<or> Style b = Round then [FillRRectOp ThPrimary w h r]
          else []))"

text \<open>
  Lines 229 to 232: the ink of every press of the history, in order, and the minimum
  of the constraints as the size.
\<close>

definition LayoutBackground :: "(Context \<Rightarrow> Value \<Rightarrow> real) \<Rightarrow> ButtonDef \<Rightarrow> Widget" where
  "LayoutBackground Pxr b gtx =
     (LayoutBackground_fill Pxr b gtx @ concat (map (drawInk gtx) (history b)),
      \<lparr>Size = Min_c (Constraints gtx), Baseline = 0\<rparr>)"

text \<open>
  The first step of \<open>ButtonDef.Layout\<close>, lines 277 to 281: the button and the context
  that the rest of the pass, and so \<open>LayoutBackground\<close>, works with. The first argument
  is the package variable \<open>GlobalDisable\<close>.
\<close>

definition Layout_disable :: "bool \<Rightarrow> ButtonDef \<Rightarrow> Context \<Rightarrow> ButtonDef \<times> Context" where
  "Layout_disable GlobalDisable b gtx =
     (let b1 = b\<lparr>disabled := False\<rparr>
      in if (disabler b1 \<noteq> None \<and> disabler b1 = Some True) \<or> GlobalDisable
         then (b1\<lparr>disabled := True\<rparr>, Disabled_ctx gtx)
         else (b1, gtx))"

text \<open>
  The widget that \<open>layLabel\<close> returns for an empty text and \<open>layIcon\<close> for a \<open>nil\<close>
  icon: \<open>func(gtx C) D { return D{} }\<close>.
\<close>

definition layLabel_empty :: Widget where
  "layLabel_empty gtx = ([], D_zero)"

section \<open>The node tree and the flex container\<close>

datatype NodeType = ListNode | FlexNode

text \<open>A node: its type, a pointer to its widget and its children.\<close>

datatype node = Node (nodeType: NodeType) (w: "Widget option") (children: "node list")

definition addChild :: "node \<Rightarrow> Widget \<Rightarrow> node" where
  "addChild n wd = Node (nodeType n) (w n) (children n @ [Node ListNode (Some wd) []])"

datatype error = NilDereference

text \<open>
  The loop of \<open>drawFlex\<close> (lines 65 to 71) reads \<open>*n.children[i].w\<close> for every child
  and wraps it with \<open>layout.Rigid\<close>; a \<open>nil\<close> pointer panics.
\<close>

record FlexChild =
  flex :: bool
  weight :: real
  widget :: Widget

definition Rigid :: "Widget \<Rightarrow> FlexChild" where
  "Rigid wd = \<lparr>flex = False, weight = 0, widget = wd\<rparr>"

fun drawFlex_children :: "node list \<Rightarrow> error + FlexChild list" where
  "drawFlex_children [] = Inr []"
| "drawFlex_children (c # cs) =
     (case w c of
        None \<Rightarrow> Inl NilDereference
      | Some wd \<Rightarrow>
          (case drawFlex_children cs of
             Inl e \<Rightarrow> Inl e
           | Inr ch \<Rightarrow> Inr (Rigid (\<lambda>gtx. wd gtx) # ch)))"

text \<open>
  \<open>layout.Flex.Layout\<close> belongs to the framework, not to this package. Its pass over
  the rigid children is taken as the framework documents \<open>layout.Rigid\<close> (a child
  "with a maximal constraint of the remaining space"): each rigid child, in order, is
  laid out with the main-axis constraint from 0 to the space that the children before
  it left (never below 0) and the cross-axis constraint of the container, and its
  dimensions are recorded. The dimensions that the framework then returns for the
  container itself are not modelled.
\<close>

datatype Axis = Horizontal | Vertical

definition axis_main :: "Axis \<Rightarrow> Point \<Rightarrow> int" where
  "axis_main a p = (case a of Horizontal \<Rightarrow> X p | Vertical \<Rightarrow> Y p)"

definition axis_cross :: "Axis \<Rightarrow> Point \<Rightarrow> int" where
  "axis_cross a p = (case a of Horizontal \<Rightarrow> Y p | Vertical \<Rightarrow> X p)"

definition axis_constraints :: "Axis \<Rightarrow> int \<Rightarrow> int \<Rightarrow> int \<Rightarrow> int \<Rightarrow> Constraints" where
  "axis_constraints a mainMin mainMax crossMin crossMax =
     (case a of
        Horizontal \<Rightarrow> \<lparr>Min_c = \<lparr>X = mainMin, Y = crossMin\<rparr>, Max_c = \<lparr>X = mainMax, Y = crossMax\<rparr>\<rparr>
      | Vertical \<Rightarrow> \<lparr>Min_c = \<lparr>X = crossMin, Y = mainMin\<rparr>, Max_c = \<lparr>X = crossMax, Y = mainMax\<rparr>\<rparr>)"

fun Flex_rigid :: "Axis \<Rightarrow> Context \<Rightarrow> int \<Rightarrow> FlexChild list \<Rightarrow> (Op list \<times> Dimensions) list" where
  "Flex_rigid a gtx remaining [] = []"
| "Flex_rigid a gtx remaining (c # cs) =
     (if flex c then Flex_rigid a gtx remaining cs
      else
        (let cgtx = gtx\<lparr>Constraints :=
                      axis_constraints a 0 remaining
                        (axis_cross a (Min_c (Constraints gtx)))
                        (axis_cross a (Max_c (Constraints gtx)))\<rparr>;
             r = widget c cgtx;
             sz = axis_main a (Size (snd r));
             remaining' = (if remaining - sz < 0 then 0 else remaining - sz)
         in r # Flex_rigid a gtx remaining' cs))"

text \<open>
  \<open>drawFlex\<close>: the children of the node as rigid children of a \<open>layout.Flex\<close> with the
  default (horizontal) axis; the result is the laid-out children, whose main-axis sizes
  are the lengths they take of the available length, the main-axis maximum.
\<close>

definition drawFlex :: "node \<Rightarrow> Context \<Rightarrow> error + (Op list \<times> Dimensions) list" where
  "drawFlex n gtx =
     (case drawFlex_children (children n) of
        Inl e \<Rightarrow> Inl e
      | Inr ch \<Rightarrow> Inr (Flex_rigid Horizontal gtx (axis_main Horizontal (Max_c (Constraints gtx))) ch))"

definition MakeFlex :: "Widget list \<Rightarrow> Context \<Rightarrow> error + (Op list \<times> Dimensions) list" where
  "MakeFlex widgets = (let n = foldl addChild (Node FlexNode None []) widgets
                       in (\<lambda>gtx. drawFlex n gtx))"

text \<open>The main-axis lengths of laid-out children, and their sum.\<close>

definition child_lengths :: "Axis \<Rightarrow> (Op list \<times> Dimensions) list \<Rightarrow> int list" where
  "child_lengths a rs = map (\<lambda>r. axis_main a (Size (snd r))) rs"

definition flex_lengths :: "Widget list \<Rightarrow> Context \<Rightarrow> int list" where
  "flex_lengths widgets gtx =
     (case MakeFlex widgets gtx of Inl e \<Rightarrow> [] | Inr rs \<Rightarrow> child_lengths Horizontal rs)"

text \<open>
  A widget keeps to the main-axis space it is offered: its length is between 0 and the
  main-axis maximum, whenever that maximum is not negative.
\<close>

definition keeps_main :: "Axis \<Rightarrow> Widget \<Rightarrow> bool" where
  "keeps_main a wd \<longleftrightarrow>
     (\<forall>gtx. 0 \<le> axis_main a (Max_c (Constraints gtx)) \<longrightarrow>
        0 \<le> axis_main a (Size (snd (wd gtx))) \<and>
        axis_main a (Size (snd (wd gtx))) \<le> axis_main a (Max_c (Constraints gtx)))"

section \<open>The ease curve of the specification, and sample inputs\<close>

text \<open>
  The specification describes the expansion by the curve \<open>3s\<^sup>2 - 2s\<^sup>3\<close> of a position
  \<open>s\<close> clamped to the unit interval. These two definitions follow the specification;
  the code's own expression is \<open>ink_rr\<close> with \<open>ink_sizet\<close>.
\<close>

definition ease :: "real \<Rightarrow> real" where
  "ease s = 3 * s\<^sup>2 - 2 * s ^ 3"

definition clamp01 :: "real \<Rightarrow> real" where
  "clamp01 s = max 0 (min 1 s)"

text \<open>
  Sample inputs for the concrete instances below: a context with given constraints and
  frame time whose metric maps a pixel value to its whole number, pixel values, a
  separator without padding, a press at the origin, and a contained button with a
  given disabler and history.
\<close>

definition px_floor :: "Value \<Rightarrow> int" where
  "px_floor v = \<lfloor>V v\<rfloor>"

definition ex_gtx :: "int \<Rightarrow> int \<Rightarrow> int \<Rightarrow> int \<Rightarrow> real \<Rightarrow> Context" where
  "ex_gtx minX minY maxX maxY now =
     \<lparr>Constraints = \<lparr>Min_c = \<lparr>X = minX, Y = minY\<rparr>, Max_c = \<lparr>X = maxX, Y = maxY\<rparr>\<rparr>,
      Now = now, Queue = Some 0, Px = px_floor\<rparr>"

definition ex_px :: "real \<Rightarrow> Value" where
  "ex_px x = \<lparr>V = x, U = UnitPx\<rparr>"

definition ex_separator :: "real \<Rightarrow> SeparatorStyle" where
  "ex_separator t = \<lparr>thickness = ex_px t,
       padding = \<lparr>Top = ex_px 0, Bottom = ex_px 0, Left = ex_px 0, Right = ex_px 0\<rparr>\<rparr>"

definition ex_press :: "real \<Rightarrow> real option \<Rightarrow> bool \<Rightarrow> Press" where
  "ex_press s e canc = \<lparr>Position = (0, 0), Start = s, End = e, Cancelled = canc\<rparr>"

definition ex_Pxr :: "Context \<Rightarrow> Value \<Rightarrow> real" where
  "ex_Pxr gtx v = V v"

definition ex_button :: "bool option \<Rightarrow> Press list \<Rightarrow> ButtonDef" where
  "ex_button d h =
     \<lparr>th = \<lparr>CornerRadius = ex_px 4, Elevation = ex_px 2, BorderThickness = ex_px 1\<rparr>,
      disabler = d, Width = ex_px 0, Style = Contained, disabled = False, history = h,
      hovered = False, focused = False\<rparr>"

section \<open>Properties of the ink animation\<close>

subsection \<open>Auxiliary facts\<close>

lemma ink_half1_const: "ink_half1 t h = 0.5"
  by (simp add: ink_half1_def Let_def max_def)

lemma ink_haste_nonneg: "0 \<le> ink_haste b e"
  by (simp add: ink_haste_def Let_def)

lemma drawInk_values_None_iff:
  "drawInk_values gtx c = None \<longleftrightarrow>
     (Now gtx - (case End c of None \<Rightarrow> Now gtx | Some e \<Rightarrow> e)) / 0.9
       + ink_haste (Cancelled c) ((case End c of None \<Rightarrow> Now gtx | Some e \<Rightarrow> e) - Start c) > 0.5"
  by (simp add: drawInk_values_def Let_def)

lemma drawInk_Nil_iff: "drawInk gtx c = [] \<longleftrightarrow> drawInk_values gtx c = None"
  by (simp add: drawInk_def split: option.splits)

lemma drawInk_values_half1:
  assumes "drawInk_values gtx c = Some k"
  shows "half1 k = 0.5"
  using assms by (auto simp: drawInk_values_def Let_def ink_half1_const split: if_splits)

lemma drawInk_values_invalidate:
  assumes "drawInk_values gtx c = Some k"
  shows "invalidate k"
  using assms by (auto simp: drawInk_values_def Let_def ink_sizet_def split: if_splits)

lemma drawInk_values_rr:
  assumes "drawInk_values gtx c = Some k"
  shows "rr k = ink_rr (max (real_of_int (Y (Min_c (Constraints gtx))))
                            (real_of_int (X (Min_c (Constraints gtx)))))
                 (ink_sizet (if Cancelled c
                             then (case End c of None \<Rightarrow> Now gtx | Some e \<Rightarrow> e) - Start c
                             else Now gtx - Start c))"
  using assms by (auto simp: drawInk_values_def Let_def split: if_splits)

lemma drawInk_values_open:
  assumes "End c = None" and "\<not> Cancelled c"
  shows "\<exists>k. drawInk_values gtx c = Some k \<and> half1 k = 0.5 \<and> alphat k = 0.5
           \<and> alpha k = 1.05 \<and> ba k = None"
  using assms
  by (simp add: drawInk_values_def ink_half1_const ink_haste_def Let_def byte_of_def trunc_def)

lemma drawInk_values_Disabled: "drawInk_values (Disabled_ctx gtx) c = drawInk_values gtx c"
  by (simp add: drawInk_values_def Disabled_ctx_def Let_def)

lemma drawInk_Disabled: "drawInk (Disabled_ctx gtx) c = drawInk gtx c"
  by (simp add: drawInk_def drawInk_values_Disabled)

subsection \<open>The fade-in\<close>

text \<open>
  Claim C1 says that the fade-in position of a press ramps with the elapsed time
  \<open>t = now - start\<close>, is below the full value for \<open>0 \<le> t < 0.45\<close> and reaches it
  exactly from \<open>t = 0.45\<close> on. The code takes \<open>math.Max(t/0.9+haste, 0.5)\<close> and then caps
  the result at \<open>0.5\<close>, so whenever a press is drawn its fade-in position is the full
  value \<open>0.5\<close>, at every elapsed time: there is no ramp. For an open press that is
  not cancelled the fade position as a whole is \<open>0.5\<close> from the first frame on.
\<close>

theorem drawInk_fade_in_is_constant:
  assumes "drawInk_values gtx c = Some k"
  shows "half1 k = 0.5 \<and> (End c = None \<and> \<not> Cancelled c \<longrightarrow> alphat k = 0.5)"
  using assms
  by (auto simp: drawInk_values_def Let_def ink_half1_const ink_haste_def split: if_splits)

text \<open>
  At the elapsed time \<open>0.1\<close> of an open, not cancelled press the fade-in position is
  already \<open>0.5\<close> and the opacity multiplier is at its value for a fully faded-in press.
\<close>

theorem drawInk_fade_in_is_constant_witness:
  "Now (ex_gtx 100 40 100 40 0.1) - Start (ex_press 0 None False) = 0.1
   \<and> map_option half1 (drawInk_values (ex_gtx 100 40 100 40 0.1) (ex_press 0 None False)) = Some 0.5"
proof -
  obtain k where k: "drawInk_values (ex_gtx 100 40 100 40 0.1) (ex_press 0 None False) = Some k"
    using drawInk_values_open[of "ex_press 0 None False" "ex_gtx 100 40 100 40 0.1"]
    by (auto simp: ex_press_def)
  from drawInk_fade_in_is_constant[OF k] have "half1 k = 0.5" by simp
  then show ?thesis using k by (simp add: ex_gtx_def ex_press_def)
qed

subsection \<open>The redraw request\<close>

text \<open>
  Claim C4 says that \<open>drawInk\<close> requests a redraw exactly for a press that is still
  animating, and that an open press that is fully expanded and not faded requests none.
  The code tests \<open>sizet <= 1.0\<close> after \<open>sizet\<close> has been capped at \<open>1.0\<close>, so the test
  always holds: every press that is drawn requests a redraw.
\<close>

theorem drawInk_always_invalidates:
  assumes "drawInk_values gtx c = Some k"
  shows "invalidate k \<and> sizet k \<le> 1 \<and> InvalidateOp \<in> set (drawInk gtx c)"
  using assms drawInk_values_invalidate[OF assms]
  by (auto simp: drawInk_def drawInk_values_def Let_def ink_sizet_def split: if_splits)

text \<open>
  An open press that started a full time-unit ago is fully expanded (\<open>sizet = 1\<close>), and
  its ink still comes with a redraw request.
\<close>

theorem drawInk_always_invalidates_witness:
  "End (ex_press 0 None False) = None
   \<and> map_option sizet (drawInk_values (ex_gtx 100 40 100 40 1) (ex_press 0 None False)) = Some 1
   \<and> InvalidateOp \<in> set (drawInk (ex_gtx 100 40 100 40 1) (ex_press 0 None False))"
proof -
  obtain k where k: "drawInk_values (ex_gtx 100 40 100 40 1) (ex_press 0 None False) = Some k"
    using drawInk_values_open[of "ex_press 0 None False" "ex_gtx 100 40 100 40 1"]
    by (auto simp: ex_press_def)
  have s: "sizet k = 1"
    using k by (auto simp: drawInk_values_def Let_def ink_sizet_def ex_gtx_def ex_press_def
                     split: if_splits)
  from drawInk_always_invalidates[OF k]
  have "InvalidateOp \<in> set (drawInk (ex_gtx 100 40 100 40 1) (ex_press 0 None False))" by simp
  then show ?thesis using k s by (simp add: ex_press_def)
qed

subsection \<open>Fading out\<close>

lemma faded_after:
  assumes "Start c = 0" and "End c = Some 0.3" and "0.3 + 0.9 \<le> now"
  shows "drawInk_values (gtx\<lparr>Now := now\<rparr>) c = None"
proof -
  have "0 \<le> ink_haste (Cancelled c) 0.3" by (rule ink_haste_nonneg)
  moreover have "1 \<le> (now - 0.3) / 0.9" using assms(3) by simp
  ultimately have "(now - 0.3) / 0.9 + ink_haste (Cancelled c) 0.3 > 0.5" by linarith
  then show ?thesis using assms(1,2) by (simp add: drawInk_values_def Let_def)
qed

lemma opacity_samples:
  assumes "Start c = 0" and "End c = Some 0.3"
  shows "ink_opacity (gtx\<lparr>Now := 0\<rparr>) c = (if Cancelled c then 28 / 45 else 7 / 36)"
    and "ink_opacity (gtx\<lparr>Now := 0.2\<rparr>) c = (if Cancelled c then 224 / 243 else 3773 / 4860)"
    and "ink_opacity (gtx\<lparr>Now := 0.5\<rparr>) c = (if Cancelled c then 112 / 1215 else 455 / 972)"
  using assms
  by (simp_all add: ink_opacity_def drawInk_values_def ink_half1_const ink_haste_def Let_def)

text \<open>
  Claim C5: for a press with \<open>start = 0\<close> and \<open>end = 0.3\<close>, cancelled or not, the
  opacity sampled at \<open>now = 0, 0.2, 0.5, 1.0, 2.0\<close> has its peak at \<open>0.2\<close> and does not
  increase from there on, and for every \<open>now\<close> from \<open>end + 0.9\<close> on the press paints
  nothing and its opacity is 0.
\<close>

theorem drawInk_fade_completion:
  assumes "Start c = 0" and "End c = Some 0.3"
  shows "ink_opacity (gtx\<lparr>Now := 0\<rparr>) c \<le> ink_opacity (gtx\<lparr>Now := 0.2\<rparr>) c
       \<and> ink_opacity (gtx\<lparr>Now := 0.5\<rparr>) c \<le> ink_opacity (gtx\<lparr>Now := 0.2\<rparr>) c
       \<and> ink_opacity (gtx\<lparr>Now := 1.0\<rparr>) c \<le> ink_opacity (gtx\<lparr>Now := 0.5\<rparr>) c
       \<and> ink_opacity (gtx\<lparr>Now := 2.0\<rparr>) c \<le> ink_opacity (gtx\<lparr>Now := 1.0\<rparr>) c
       \<and> (\<forall>now. 0.3 + 0.9 \<le> now \<longrightarrow>
             drawInk (gtx\<lparr>Now := now\<rparr>) c = [] \<and> ink_opacity (gtx\<lparr>Now := now\<rparr>) c = 0)"
proof -
  have a1: "ink_opacity (gtx\<lparr>Now := 1.0\<rparr>) c = 0"
    using assms
    by (simp add: ink_opacity_def drawInk_values_def ink_half1_const ink_haste_def Let_def)
  have a2: "ink_opacity (gtx\<lparr>Now := 2.0\<rparr>) c = 0"
    using faded_after[OF assms, of "2.0" gtx] by (simp add: ink_opacity_def)
  have late: "drawInk (gtx\<lparr>Now := now\<rparr>) c = [] \<and> ink_opacity (gtx\<lparr>Now := now\<rparr>) c = 0"
    if "0.3 + 0.9 \<le> now" for now
    using faded_after[OF assms that, of gtx] by (simp add: ink_opacity_def drawInk_def)
  note s = opacity_samples[OF assms, of gtx]
  show ?thesis
    using s a1 a2 late by (cases "Cancelled c") simp_all
qed

theorem drawInk_fade_completion_witness:
  "ink_opacity (ex_gtx 100 40 100 40 0) (ex_press 0 (Some 0.3) False)
     \<le> ink_opacity (ex_gtx 100 40 100 40 0.2) (ex_press 0 (Some 0.3) False)
   \<and> ink_opacity (ex_gtx 100 40 100 40 0.5) (ex_press 0 (Some 0.3) False)
     \<le> ink_opacity (ex_gtx 100 40 100 40 0.2) (ex_press 0 (Some 0.3) False)
   \<and> ink_opacity (ex_gtx 100 40 100 40 1.0) (ex_press 0 (Some 0.3) False)
     \<le> ink_opacity (ex_gtx 100 40 100 40 0.5) (ex_press 0 (Some 0.3) False)
   \<and> drawInk (ex_gtx 100 40 100 40 1.2) (ex_press 0 (Some 0.3) False) = []
   \<and> ink_opacity (ex_gtx 100 40 100 40 2.0) (ex_press 0 (Some 0.3) False) = 0"
proof -
  have h1: "Start (ex_press 0 (Some 0.3) False) = 0"
    and h2: "End (ex_press 0 (Some 0.3) False) = Some 0.3"
    by (simp_all add: ex_press_def)
  have g: "(ex_gtx 100 40 100 40 0)\<lparr>Now := t\<rparr> = ex_gtx 100 40 100 40 t" for t
    by (simp add: ex_gtx_def)
  note f = drawInk_fade_completion[OF h1 h2, of "ex_gtx 100 40 100 40 0", unfolded g]
  have "drawInk (ex_gtx 100 40 100 40 1.2) (ex_press 0 (Some 0.3) False) = []"
    and "ink_opacity (ex_gtx 100 40 100 40 2.0) (ex_press 0 (Some 0.3) False) = 0"
    using f by simp_all
  then show ?thesis using f by simp
qed

text \<open>
  Claim C6: \<open>drawInk\<close> paints nothing for a press exactly when
  \<open>(now - end)/0.9 + haste > 0.5\<close>, where \<open>end\<close> is the end of the press (the frame
  time while the press is open), and \<open>haste\<close> is \<open>0.5 - endT/0.9\<close> for a cancelled
  press for which that quantity is positive, and 0 otherwise.
\<close>

theorem drawInk_nothing_iff_faded:
  "(let now = Now gtx;
        e = (case End c of None \<Rightarrow> now | Some e \<Rightarrow> e);
        endT = e - Start c;
        haste = (if Cancelled c \<and> 0.5 - endT / 0.9 > 0 then 0.5 - endT / 0.9 else 0)
    in (drawInk gtx c = []) = ((now - e) / 0.9 + haste > 0.5))"
  by (simp add: drawInk_Nil_iff drawInk_values_None_iff ink_haste_def Let_def)

theorem drawInk_nothing_iff_faded_witness:
  "drawInk (ex_gtx 100 40 100 40 1) (ex_press 0 (Some 0.3) False) = []
   \<and> drawInk (ex_gtx 100 40 100 40 0.5) (ex_press 0 (Some 0.3) False) \<noteq> []
   \<and> drawInk (ex_gtx 100 40 100 40 0.5) (ex_press 0 (Some 0.3) True) \<noteq> []
   \<and> drawInk (ex_gtx 100 40 100 40 0.7) (ex_press 0 (Some 0.3) True) = []"
  using drawInk_nothing_iff_faded[of "ex_gtx 100 40 100 40 1" "ex_press 0 (Some 0.3) False"]
        drawInk_nothing_iff_faded[of "ex_gtx 100 40 100 40 0.5" "ex_press 0 (Some 0.3) False"]
        drawInk_nothing_iff_faded[of "ex_gtx 100 40 100 40 0.5" "ex_press 0 (Some 0.3) True"]
        drawInk_nothing_iff_faded[of "ex_gtx 100 40 100 40 0.7" "ex_press 0 (Some 0.3) True"]
  by (simp add: Let_def ex_gtx_def ex_press_def)

subsection \<open>The opacity of an open press\<close>

text \<open>
  Claim C10: for an open press (no end time) that is not cancelled, the opacity
  multiplier \<open>alpha\<close> is 1.05, so \<open>alpha * 0xff = 267.75\<close> is above the range of a byte
  before the conversion \<open>byte(alpha*0xff)\<close>, whose result Go then leaves to the
  implementation.
\<close>

theorem drawInk_open_alpha_exceeds_byte:
  assumes "End c = None" and "\<not> Cancelled c"
  shows "\<exists>k. drawInk_values gtx c = Some k \<and> alpha k = 1.05 \<and> alpha k * 0xff = 267.75
            \<and> 255 < alpha k * 0xff \<and> ba k = None"
  using assms
  by (simp add: drawInk_values_def ink_half1_const ink_haste_def Let_def byte_of_def trunc_def)

theorem drawInk_open_alpha_exceeds_byte_witness:
  "map_option alpha (drawInk_values (ex_gtx 100 40 100 40 0.2) (ex_press 0 None False)) = Some 1.05
   \<and> map_option ba (drawInk_values (ex_gtx 100 40 100 40 0.2) (ex_press 0 None False)) = Some None"
proof -
  have h1: "End (ex_press 0 None False) = None" and h2: "\<not> Cancelled (ex_press 0 None False)"
    by (simp_all add: ex_press_def)
  from drawInk_open_alpha_exceeds_byte[OF h1 h2, of "ex_gtx 100 40 100 40 0.2"]
  show ?thesis by auto
qed

subsection \<open>The expansion\<close>

lemma ease_mono:
  assumes "0 \<le> a" "a \<le> b" "b \<le> 1"
  shows "ease a \<le> ease b"
proof -
  have a1: "a \<le> 1" and b0: "0 \<le> b" using assms by linarith+
  have aa: "a * a \<le> a" using assms(1) a1 by (simp add: mult_left_le)
  have bb: "b * b \<le> b" using b0 assms(3) by (simp add: mult_left_le)
  have ab: "a * b \<le> a" using assms(1,3) by (simp add: mult_left_le)
  have ab': "a * b \<le> b" using mult_right_mono[OF a1 b0] by simp
  have key: "0 \<le> 3 * (a + b) - 2 * (a * a + a * b + b * b)"
  proof -
    have "2 * (a * a) \<le> 2 * a" "2 * (b * b) \<le> 2 * b" "2 * (a * b) \<le> a + b"
      using aa bb ab ab' by linarith+
    then show ?thesis by (simp add: algebra_simps)
  qed
  have "ease b - ease a = (b - a) * (3 * (a + b) - 2 * (a * a + a * b + b * b))"
    by (simp add: ease_def power2_eq_square power3_eq_cube algebra_simps)
  moreover have "0 \<le> (b - a) * (3 * (a + b) - 2 * (a * a + a * b + b * b))"
    using assms(2) key by simp
  ultimately show ?thesis by linarith
qed

lemma clamp01_mono: "x \<le> y \<Longrightarrow> clamp01 x \<le> clamp01 y"
  by (simp add: clamp01_def max_def min_def)

lemma clamp01_range: "0 \<le> clamp01 x" "clamp01 x \<le> 1"
  by (simp_all add: clamp01_def)

lemma ink_rr_ease: "ink_rr sz s = sz * sqrt 2 * ease s"
  by (simp add: ink_rr_def ease_def power2_eq_square power3_eq_cube algebra_simps)

lemma ink_sizet_clamp: "0 \<le> t \<Longrightarrow> ink_sizet t = clamp01 (2 * t)"
  by (simp add: ink_sizet_def clamp01_def max_def min_def)

text \<open>
  Claim C7: for a press that is drawn, with a non-negative elapsed time, the radius is
  \<open>max(width, height) * sqrt 2 * ease s\<close> with \<open>s\<close> the doubled elapsed time clamped to
  the unit interval: it is 0 at elapsed time 0, reaches \<open>max(width, height) * sqrt 2\<close>
  from elapsed time \<open>1/2\<close> on, and (for a non-negative size) does not shrink from one
  frame to a later one. For a cancelled press the elapsed time is \<open>endT\<close>, so with its
  end time set the radius is the same at every frame at which the press is drawn. Width
  and height are those of the minimum of the constraints.
\<close>

theorem drawInk_expansion_radius:
  assumes drawn: "drawInk_values gtx c = Some k"
    and started: "Start c \<le> Now gtx"
    and ended: "\<forall>e. End c = Some e \<longrightarrow> Start c \<le> e"
  shows "(let vw = real_of_int (X (Min_c (Constraints gtx)));
              vh = real_of_int (Y (Min_c (Constraints gtx)));
              te = (if Cancelled c
                    then (case End c of None \<Rightarrow> Now gtx | Some e \<Rightarrow> e) - Start c
                    else Now gtx - Start c)
          in rr k = max vw vh * sqrt 2 * ease (clamp01 (2 * te))
           \<and> (te = 0 \<longrightarrow> rr k = 0)
           \<and> (1 / 2 \<le> te \<longrightarrow> rr k = max vw vh * sqrt 2)
           \<and> (\<forall>gtx' k'. Constraints gtx' = Constraints gtx \<and> drawInk_values gtx' c = Some k'
                 \<and> Now gtx \<le> Now gtx' \<and> 0 \<le> max vw vh \<longrightarrow> rr k \<le> rr k')
           \<and> (\<forall>gtx' k' e. Cancelled c \<and> End c = Some e \<and> Constraints gtx' = Constraints gtx
                 \<and> drawInk_values gtx' c = Some k' \<longrightarrow> rr k' = rr k))"
proof -
  define vw where "vw = real_of_int (X (Min_c (Constraints gtx)))"
  define vh where "vh = real_of_int (Y (Min_c (Constraints gtx)))"
  define te where "te = (if Cancelled c
                    then (case End c of None \<Rightarrow> Now gtx | Some e \<Rightarrow> e) - Start c
                    else Now gtx - Start c)"
  have te0: "0 \<le> te"
    using started ended by (auto simp: te_def split: option.splits)
  have r: "rr k = max vw vh * sqrt 2 * ease (clamp01 (2 * te))"
    using drawInk_values_rr[OF drawn] te0
    by (simp add: ink_rr_ease ink_sizet_clamp te_def vw_def vh_def max.commute)
  have z: "te = 0 \<longrightarrow> rr k = 0"
    using r by (simp add: ease_def clamp01_def)
  have f: "1 / 2 \<le> te \<longrightarrow> rr k = max vw vh * sqrt 2"
    using r by (simp add: ease_def clamp01_def min_def max_def)
  have m: "rr k \<le> rr k'"
    if h: "Constraints gtx' = Constraints gtx" "drawInk_values gtx' c = Some k'"
          "Now gtx \<le> Now gtx'" "0 \<le> max vw vh" for gtx' k'
  proof -
    define te' where "te' = (if Cancelled c
                    then (case End c of None \<Rightarrow> Now gtx' | Some e \<Rightarrow> e) - Start c
                    else Now gtx' - Start c)"
    have le: "te \<le> te'" using h(3) by (auto simp: te_def te'_def split: option.splits)
    have te0': "0 \<le> te'" using le te0 by linarith
    have r': "rr k' = max vw vh * sqrt 2 * ease (clamp01 (2 * te'))"
      using drawInk_values_rr[OF h(2)] te0' h(1)
      by (simp add: ink_rr_ease ink_sizet_clamp te'_def vw_def vh_def max.commute)
    have "ease (clamp01 (2 * te)) \<le> ease (clamp01 (2 * te'))"
      using le by (intro ease_mono clamp01_mono clamp01_range) simp
    then show ?thesis unfolding r r' using h(4)
      by (intro mult_left_mono) simp_all
  qed
  have fr: "rr k' = rr k"
    if h: "Cancelled c" "End c = Some e" "Constraints gtx' = Constraints gtx"
          "drawInk_values gtx' c = Some k'" for gtx' k' e
    using drawInk_values_rr[OF h(4)] drawInk_values_rr[OF drawn] h(1,2,3) by simp
  show ?thesis
    unfolding Let_def vw_def[symmetric] vh_def[symmetric] te_def[symmetric]
    using r z f m fr by blast
qed

theorem drawInk_expansion_radius_witness:
  "map_option rr (drawInk_values (ex_gtx 100 40 100 40 0.4) (ex_press 0 (Some 0.3) True))
     = Some (100 * sqrt 2 * ease (clamp01 0.6))
   \<and> map_option rr (drawInk_values (ex_gtx 100 40 100 40 0.5) (ex_press 0 (Some 0.3) True))
     = map_option rr (drawInk_values (ex_gtx 100 40 100 40 0.4) (ex_press 0 (Some 0.3) True))"
proof -
  let ?P = "ex_press 0 (Some 0.3) True"
  let ?G = "ex_gtx 100 40 100 40 0.4"
  let ?G' = "ex_gtx 100 40 100 40 0.5"
  obtain k where k: "drawInk_values ?G ?P = Some k"
    by (simp add: drawInk_values_def Let_def ink_haste_def ex_gtx_def ex_press_def)
  obtain k' where k': "drawInk_values ?G' ?P = Some k'"
    by (simp add: drawInk_values_def Let_def ink_haste_def ex_gtx_def ex_press_def)
  have s: "Start ?P \<le> Now ?G" by (simp add: ex_gtx_def ex_press_def)
  have e: "\<forall>e. End ?P = Some e \<longrightarrow> Start ?P \<le> e" by (simp add: ex_press_def)
  have c: "Cancelled ?P" "End ?P = Some 0.3" "Constraints ?G' = Constraints ?G"
    by (simp_all add: ex_gtx_def ex_press_def)
  note t = drawInk_expansion_radius[OF k s e, unfolded Let_def]
  from t have r: "rr k = 100 * sqrt 2 * ease (clamp01 0.6)"
    by (simp add: ex_gtx_def ex_press_def)
  from t c k' have f: "rr k' = rr k" by blast
  show ?thesis using r f k k' by simp
qed

section \<open>Properties of the button\<close>

text \<open>
  Claim C8: disabling a button, by its disabler or by the global flag, does not erase
  the ink of presses in flight. The first step of \<open>Layout\<close> leaves the press history
  as it is, and \<open>LayoutBackground\<close>, run with the button and context of that step,
  appends to its fill the ink of every press of the history, in order, exactly as for
  the context that was passed in; the same holds for any context and its disabled
  copy. The fill depends on the disabled state, the ink does not.
\<close>

theorem LayoutBackground_ink_when_disabled:
  "(let b' = fst (Layout_disable glob b gtx); gtx' = snd (Layout_disable glob b gtx)
    in history b' = history b
     \<and> (disabled b' \<longleftrightarrow> disabler b = Some True \<or> glob)
     \<and> fst (LayoutBackground Pxr b' gtx')
         = LayoutBackground_fill Pxr b' gtx' @ concat (map (drawInk gtx) (history b))
     \<and> (\<forall>g. fst (LayoutBackground Pxr b' g)
                = LayoutBackground_fill Pxr b' g @ concat (map (drawInk g) (history b))
            \<and> fst (LayoutBackground Pxr b' (Disabled_ctx g))
                = LayoutBackground_fill Pxr b' (Disabled_ctx g)
                  @ concat (map (drawInk g) (history b))))"
proof -
  have same: "drawInk (Disabled_ctx g) = drawInk g" for g
    by (rule ext) (rule drawInk_Disabled)
  show ?thesis
    by (auto simp: Layout_disable_def LayoutBackground_def Let_def same)
qed

theorem LayoutBackground_ink_when_disabled_witness:
  "disabled (fst (Layout_disable False (ex_button (Some True) [ex_press 0 None False])
                     (ex_gtx 100 40 100 40 0)))
   \<and> Queue (snd (Layout_disable False (ex_button (Some True) [ex_press 0 None False])
                     (ex_gtx 100 40 100 40 0))) = None
   \<and> fst (LayoutBackground ex_Pxr
            (fst (Layout_disable False (ex_button (Some True) [ex_press 0 None False])
                     (ex_gtx 100 40 100 40 0)))
            (snd (Layout_disable False (ex_button (Some True) [ex_press 0 None False])
                     (ex_gtx 100 40 100 40 0))))
       = [UniformRRectOp 100 40 4, FillRRectOp (Disabled ThPrimary) 100 40 4]
         @ drawInk (ex_gtx 100 40 100 40 0) (ex_press 0 None False)"
proof -
  let ?b = "ex_button (Some True) [ex_press 0 None False]"
  let ?g = "ex_gtx 100 40 100 40 0"
  have d: "Layout_disable False ?b ?g = (?b\<lparr>disabled := True\<rparr>, Disabled_ctx ?g)"
    by (auto simp: Layout_disable_def ex_button_def Let_def)
  have fill: "LayoutBackground_fill ex_Pxr (?b\<lparr>disabled := True\<rparr>) (Disabled_ctx ?g)
                = [UniformRRectOp 100 40 4, FillRRectOp (Disabled ThPrimary) 100 40 4]"
    by (simp add: LayoutBackground_fill_def ex_button_def ex_gtx_def ex_Pxr_def ex_px_def
          Disabled_ctx_def Let_def)
  have h: "history ?b = [ex_press 0 None False]" by (simp add: ex_button_def)
  note t = LayoutBackground_ink_when_disabled[of False ?b ?g ex_Pxr, unfolded Let_def d fst_conv snd_conv]
  from t[THEN conjunct2, THEN conjunct2, THEN conjunct1]
  have ink: "fst (LayoutBackground ex_Pxr (?b\<lparr>disabled := True\<rparr>) (Disabled_ctx ?g))
      = [UniformRRectOp 100 40 4, FillRRectOp (Disabled ThPrimary) 100 40 4]
        @ drawInk ?g (ex_press 0 None False)"
    by (simp add: fill h)
  have q: "Queue (Disabled_ctx ?g) = None" by (simp add: Disabled_ctx_def)
  show ?thesis
    unfolding d fst_conv snd_conv using ink q by simp
qed

section \<open>Properties of the layout functions\<close>

text \<open>
  Claim C3 says that every layout function returns a size within its constraints. The
  separator does not: it takes the maximum of the constraints and replaces the height
  by its thickness and vertical padding, without looking at the bounds. With the
  constraints from \<open>(0, 0)\<close> to \<open>(100, 2)\<close> a separator of thickness 5 returns the
  height 5.
\<close>

theorem Separator_size_counterexample:
  "\<not> within_constraints (Constraints (ex_gtx 0 0 100 2 0))
        (Size (snd (Separator (ex_separator 5) (ex_gtx 0 0 100 2 0))))"
  by (simp add: within_constraints_def Separator_def ex_gtx_def ex_separator_def ex_px_def
        px_floor_def Let_def)

text \<open>
  Claim C3, amended: the separator returns the maximum width and, as its height, the
  pixels of its thickness and of its top and bottom padding; this size lies within the
  constraints exactly when the minimum width is at most the maximum width and that
  height lies between the minimum and the maximum height. The background of a button
  returns the minimum of its constraints, which lies within them exactly when the
  minimum is at most the maximum in both components.
\<close>

theorem layout_sizes:
  "(let cs = Constraints gtx;
        h = Px gtx (thickness s) + Px gtx (Top (padding s)) + Px gtx (Bottom (padding s));
        sep = Size (snd (Separator s gtx));
        bg = Size (snd (LayoutBackground Pxr b gtx))
    in sep = \<lparr>X = X (Max_c cs), Y = h\<rparr>
     \<and> (within_constraints cs sep
          \<longleftrightarrow> X (Min_c cs) \<le> X (Max_c cs) \<and> Y (Min_c cs) \<le> h \<and> h \<le> Y (Max_c cs))
     \<and> bg = Min_c cs
     \<and> (within_constraints cs bg
          \<longleftrightarrow> X (Min_c cs) \<le> X (Max_c cs) \<and> Y (Min_c cs) \<le> Y (Max_c cs)))"
  by (simp add: within_constraints_def Separator_def LayoutBackground_def Let_def)

theorem layout_sizes_witness:
  "Size (snd (Separator (ex_separator 5) (ex_gtx 0 0 100 50 0))) = \<lparr>X = 100, Y = 5\<rparr>
   \<and> within_constraints (Constraints (ex_gtx 0 0 100 50 0))
        (Size (snd (Separator (ex_separator 5) (ex_gtx 0 0 100 50 0))))
   \<and> Size (snd (LayoutBackground ex_Pxr (ex_button None []) (ex_gtx 0 0 100 50 0)))
       = \<lparr>X = 0, Y = 0\<rparr>"
  using layout_sizes[of "ex_gtx 0 0 100 50 0" "ex_separator 5" ex_Pxr "ex_button None []"]
  by (simp add: Let_def ex_gtx_def ex_separator_def ex_px_def px_floor_def within_constraints_def)

section \<open>Properties of the flex container\<close>

lemma children_foldl_addChild:
  "children (foldl addChild n ws) = children n @ map (\<lambda>wd. Node ListNode (Some wd) []) ws"
  by (induction ws arbitrary: n) (simp_all add: addChild_def)

lemma drawFlex_children_map:
  "drawFlex_children (map (\<lambda>wd. Node ListNode (Some wd) []) ws) = Inr (map Rigid ws)"
  by (induction ws) simp_all

lemma MakeFlex_eq:
  "MakeFlex ws gtx =
     Inr (Flex_rigid Horizontal gtx (axis_main Horizontal (Max_c (Constraints gtx))) (map Rigid ws))"
  by (simp add: MakeFlex_def drawFlex_def children_foldl_addChild drawFlex_children_map)

lemma MakeFlex_empty: "MakeFlex [] gtx = Inr []"
  by (simp add: MakeFlex_eq)

lemma Flex_rigid_sum:
  assumes "0 \<le> remaining" and "\<forall>wd\<in>set ws. keeps_main a wd"
  shows "length (Flex_rigid a gtx remaining (map Rigid ws)) = length ws
       \<and> sum_list (child_lengths a (Flex_rigid a gtx remaining (map Rigid ws))) \<le> remaining
       \<and> (\<forall>l\<in>set (child_lengths a (Flex_rigid a gtx remaining (map Rigid ws))). 0 \<le> l)"
  using assms
proof (induction ws arbitrary: remaining)
  case Nil
  then show ?case by (simp add: child_lengths_def)
next
  case (Cons wd ws)
  define cgtx where "cgtx = gtx\<lparr>Constraints :=
                      axis_constraints a 0 remaining
                        (axis_cross a (Min_c (Constraints gtx)))
                        (axis_cross a (Max_c (Constraints gtx)))\<rparr>"
  define sz where "sz = axis_main a (Size (snd (wd cgtx)))"
  have mx: "axis_main a (Max_c (Constraints cgtx)) = remaining"
    by (cases a) (simp_all add: cgtx_def axis_constraints_def axis_main_def)
  have k: "keeps_main a wd" using Cons.prems(2) by simp
  have b: "0 \<le> sz \<and> sz \<le> remaining"
    using k Cons.prems(1) mx unfolding keeps_main_def sz_def by metis
  have rest: "0 \<le> remaining - sz" using b by simp
  have ks: "\<forall>wd\<in>set ws. keeps_main a wd" using Cons.prems(2) by simp
  note ih = Cons.IH[OF rest ks]
  have step: "Flex_rigid a gtx remaining (map Rigid (wd # ws))
                = wd cgtx # Flex_rigid a gtx (remaining - sz) (map Rigid ws)"
    using rest by (simp add: Rigid_def Let_def cgtx_def sz_def)
  show ?case
    unfolding step using ih b by (simp add: child_lengths_def sz_def)
qed

lemma keeps_main_layLabel_empty: "keeps_main a layLabel_empty"
  by (cases a) (simp_all add: keeps_main_def layLabel_empty_def D_zero_def axis_main_def)

lemma keeps_main_Separator: "keeps_main Horizontal (Separator s)"
  by (simp add: keeps_main_def Separator_def axis_main_def Let_def)

text \<open>
  Claim C2 says that the main-axis lengths of the children of a flex container sum to
  the available length \<open>L\<close> exactly. \<open>drawFlex\<close> has no size policies: it hands every
  child to the framework as a rigid child, whose length is the one the child returns.
  A container of available length 100 whose only child is the empty widget of
  \<open>layLabel\<close> gives that child the length 0.
\<close>

theorem MakeFlex_sum_counterexample:
  "MakeFlex [layLabel_empty] (ex_gtx 0 0 100 50 0) = Inr [([], D_zero)]
   \<and> sum_list (flex_lengths [layLabel_empty] (ex_gtx 0 0 100 50 0)) = 0
   \<and> axis_main Horizontal (Max_c (Constraints (ex_gtx 0 0 100 50 0))) = 100"
  by (simp add: MakeFlex_eq flex_lengths_def child_lengths_def Rigid_def layLabel_empty_def
        D_zero_def axis_main_def ex_gtx_def Let_def)

text \<open>
  Claim C2, amended: for an available length \<open>L \<ge> 0\<close> and children that each return a
  main-axis length between 0 and the space they are offered, \<open>MakeFlex\<close> lays out every
  child, as a rigid child, without error; no child has a negative length, and the
  lengths sum to at most \<open>L\<close>.
\<close>

theorem MakeFlex_sum_at_most:
  assumes "0 \<le> axis_main Horizontal (Max_c (Constraints gtx))"
    and "\<forall>wd\<in>set widgets. keeps_main Horizontal wd"
  shows "\<exists>rs. MakeFlex widgets gtx = Inr rs \<and> length rs = length widgets
           \<and> (\<forall>l\<in>set (child_lengths Horizontal rs). 0 \<le> l)
           \<and> sum_list (child_lengths Horizontal rs)
               \<le> axis_main Horizontal (Max_c (Constraints gtx))"
  using Flex_rigid_sum[OF assms, of gtx] by (simp add: MakeFlex_eq)

theorem MakeFlex_sum_at_most_witness:
  "keeps_main Horizontal layLabel_empty \<and> keeps_main Horizontal (Separator (ex_separator 5))
   \<and> sum_list (flex_lengths [layLabel_empty, Separator (ex_separator 5), layLabel_empty]
                  (ex_gtx 0 0 100 50 0)) \<le> 100
   \<and> flex_lengths [layLabel_empty, Separator (ex_separator 5), layLabel_empty]
        (ex_gtx 0 0 100 50 0) = [0, 100, 0]"
proof -
  let ?ws = "[layLabel_empty, Separator (ex_separator 5), layLabel_empty]"
  have h0: "0 \<le> axis_main Horizontal (Max_c (Constraints (ex_gtx 0 0 100 50 0)))"
    by (simp add: axis_main_def ex_gtx_def)
  have h1: "\<forall>wd\<in>set ?ws. keeps_main Horizontal wd"
    by (simp add: keeps_main_layLabel_empty keeps_main_Separator)
  have l: "axis_main Horizontal (Max_c (Constraints (ex_gtx 0 0 100 50 0))) = 100"
    by (simp add: axis_main_def ex_gtx_def)
  from MakeFlex_sum_at_most[OF h0 h1]
  have "sum_list (flex_lengths ?ws (ex_gtx 0 0 100 50 0)) \<le> 100"
    unfolding l by (auto simp: flex_lengths_def)
  moreover have "flex_lengths ?ws (ex_gtx 0 0 100 50 0) = [0, 100, 0]"
    by (simp add: MakeFlex_eq flex_lengths_def child_lengths_def Rigid_def layLabel_empty_def
        D_zero_def axis_main_def axis_cross_def axis_constraints_def ex_gtx_def Let_def
        Separator_def)
  ultimately show ?thesis by (simp add: keeps_main_layLabel_empty keeps_main_Separator)
qed

end
